theory Spec2Isabelle
  imports Complex_Main
begin

section \<open>Data model of the disambiguation script\<close>

text \<open>
  The development follows \<^verbatim>\<open>metadata_pipeline_torch_only.py\<close>.

  \<^item> An embedding is the numpy array of shape \<open>(1, d)\<close> returned by \<^verbatim>\<open>get_embedding\<close>; it is
    modelled by its single row, a list of reals (floating point is abstracted to the reals).
  \<^item> A Python \<^verbatim>\<open>dict\<close> is an association list in insertion order, which is the order in which
    Python iterates it; keys are unique.
  \<^item> The tokenizer and the BioBERT model are outside the script: they are a parameter
    \<open>embed_fn\<close>, which returns \<open>None\<close> when the call raises.
\<close>

type_synonym vec = "real list"

type_synonym 'v dict = "(string \<times> 'v) list"

type_synonym provider = "string \<Rightarrow> vec option"

datatype exn = ValueError | KeyError

text \<open>\<^verbatim>\<open>d[k] = v\<close>: an existing key keeps its position, a new key is appended.\<close>

fun dict_set :: "string \<Rightarrow> 'v \<Rightarrow> 'v dict \<Rightarrow> 'v dict" where
  "dict_set k v [] = [(k, v)]"
| "dict_set k v ((k', v') # d) =
     (if k = k' then (k, v) # d else (k', v') # dict_set k v d)"

definition dict_keys :: "'v dict \<Rightarrow> string list" where
  "dict_keys d = map fst d"

text \<open>\<^verbatim>\<open>d[k]\<close> as an expression: raises \<^verbatim>\<open>KeyError\<close> on a missing key.\<close>

definition dict_getitem :: "'v dict \<Rightarrow> string \<Rightarrow> exn + 'v" where
  "dict_getitem d k = (case map_of d k of None \<Rightarrow> Inl KeyError | Some v \<Rightarrow> Inr v)"

text \<open>
  The process state: the two module-level dictionaries, and a log of the texts handed to the
  embedding model so far (the log is not a variable of the script; it records the calls of
  \<^verbatim>\<open>get_embedding\<close> so that statements about them can be made).
\<close>

record pstate =
  ontology_terms :: "(string \<times> string) dict"
  ontology_embeddings :: "vec dict"
  provider_calls :: "string list"

section \<open>The embedding call\<close>

text \<open>
  \<^verbatim>\<open>get_embedding(text)\<close>: any exception of the tokenizer or the model is caught and \<open>None\<close>
  is returned.
\<close>

definition get_embedding :: "provider \<Rightarrow> string \<Rightarrow> string list \<Rightarrow> vec option \<times> string list" where
  "get_embedding embed_fn text calls = (embed_fn text, calls @ [text])"

section \<open>Warm-up of the ontology embeddings\<close>

text \<open>
  The loop \<^verbatim>\<open>for i, term in enumerate(ontology_terms.keys())\<close>: a term whose embedding is
  \<open>None\<close> is reported and left out.
\<close>

fun warm_loop :: "provider \<Rightarrow> string list \<Rightarrow> vec dict \<times> string list \<Rightarrow> vec dict \<times> string list" where
  "warm_loop embed_fn [] st = st"
| "warm_loop embed_fn (tm # tms) (cache, calls) =
     (case get_embedding embed_fn tm calls of
        (None, calls') \<Rightarrow> warm_loop embed_fn tms (cache, calls')
      | (Some embedding, calls') \<Rightarrow> warm_loop embed_fn tms (dict_set tm embedding cache, calls'))"

text \<open>
  The module-level code: \<^verbatim>\<open>ontology_embeddings = {}\<close> followed by the loop. It starts from
  the state \<open>s\<close> the process is in (a fresh process has no embeddings and no calls yet).
\<close>

definition warm_up :: "provider \<Rightarrow> pstate \<Rightarrow> pstate" where
  "warm_up embed_fn s =
     (let (cache, calls) = warm_loop embed_fn (dict_keys (ontology_terms s)) ([], provider_calls s)
      in s\<lparr>ontology_embeddings := cache, provider_calls := calls\<rparr>)"

definition startup :: "provider \<Rightarrow> (string \<times> string) dict \<Rightarrow> pstate" where
  "startup embed_fn ont =
     warm_up embed_fn \<lparr>ontology_terms = ont, ontology_embeddings = [], provider_calls = []\<rparr>"

section \<open>Cosine similarity\<close>

text \<open>
  \<^verbatim>\<open>sklearn.metrics.pairwise.cosine_similarity(X, Y)[0][0]\<close> for two one-row arrays. The
  library function is not part of the script; it is modelled by what it computes: both rows
  are scaled to unit Euclidean length, a row of norm zero being left as it is (its norm is
  replaced by 1 before the division), and the dot product of the scaled rows is returned.
  Rows of different lengths, and rows with no column, raise \<^verbatim>\<open>ValueError\<close>.
\<close>

definition dot :: "vec \<Rightarrow> vec \<Rightarrow> real" where
  "dot a b = (\<Sum>(x, y)\<leftarrow>zip a b. x * y)"

definition row_norm :: "vec \<Rightarrow> real" where
  "row_norm a = sqrt (\<Sum>x\<leftarrow>a. x * x)"

definition normalize :: "vec \<Rightarrow> vec" where
  "normalize a =
     (let n = row_norm a; scale = (if n = 0 then 1 else n) in map (\<lambda>x. x / scale) a)"

definition cosine_similarity :: "vec \<Rightarrow> vec \<Rightarrow> exn + real" where
  "cosine_similarity a b =
     (if a = [] \<or> b = [] \<or> length a \<noteq> length b then Inl ValueError
      else Inr (dot (normalize a) (normalize b)))"

section \<open>Ranking\<close>

text \<open>
  The loop \<^verbatim>\<open>for k, v in ontology_embeddings.items()\<close>: a pair whose comparison raises is
  reported and skipped.
\<close>

fun similarities_loop :: "vec \<Rightarrow> vec dict \<Rightarrow> real dict \<Rightarrow> real dict" where
  "similarities_loop c [] sims = sims"
| "similarities_loop c ((k, v) # items) sims =
     (case cosine_similarity c v of
        Inl e \<Rightarrow> similarities_loop c items sims
      | Inr sim \<Rightarrow> similarities_loop c items (dict_set k sim sims))"

text \<open>
  \<^verbatim>\<open>max(similarities, key=similarities.get)\<close>: Python's \<^verbatim>\<open>max\<close> walks the keys in order and
  replaces the current best only by a strictly greater value, so the first key with the
  greatest value is returned; on an empty dict it raises \<^verbatim>\<open>ValueError\<close>.
\<close>

fun max_from :: "string \<times> real \<Rightarrow> real dict \<Rightarrow> string" where
  "max_from (bk, bv) [] = bk"
| "max_from (bk, bv) ((k, v) # rest) =
     (if v > bv then max_from (k, v) rest else max_from (bk, bv) rest)"

definition py_max_key :: "real dict \<Rightarrow> exn + string" where
  "py_max_key d = (case d of [] \<Rightarrow> Inl ValueError | kv # rest \<Rightarrow> Inr (max_from kv rest))"

section \<open>Disambiguation\<close>

text \<open>\<^verbatim>\<open>candidate_text = term + " " + context if context else term\<close>\<close>

definition candidate_text :: "string \<Rightarrow> string \<Rightarrow> string" where
  "candidate_text tm ctx = (if ctx \<noteq> [] then tm @ '' '' @ ctx else tm)"

text \<open>
  The four places where \<^verbatim>\<open>disambiguate_entity\<close> returns \<^verbatim>\<open>None, None, None\<close>: no ontology
  embeddings, no embedding for the candidate text, no similarity computed, and the outer
  \<^verbatim>\<open>except Exception\<close> handler (with the exception it caught).
\<close>

datatype failure = CacheEmpty | EmbeddingUnavailable | NoMatchFound | InternalError exn

type_synonym outcome = "failure + string \<times> string \<times> string"

text \<open>The body of the outer \<^verbatim>\<open>try\<close>, once the candidate embedding is there.\<close>

definition resolve :: "(string \<times> string) dict \<Rightarrow> vec dict \<Rightarrow> vec \<Rightarrow> outcome" where
  "resolve ont cache c =
     (let similarities = similarities_loop c cache []
      in if similarities = [] then Inl NoMatchFound
         else (case py_max_key similarities of
                 Inl e \<Rightarrow> Inl (InternalError e)
               | Inr best_match \<Rightarrow>
                   (case dict_getitem ont best_match of
                      Inl e \<Rightarrow> Inl (InternalError e)
                    | Inr (code, system) \<Rightarrow> Inr (best_match, code, system))))"

definition disambiguate_entity :: "provider \<Rightarrow> pstate \<Rightarrow> string \<Rightarrow> string \<Rightarrow> outcome \<times> pstate" where
  "disambiguate_entity embed_fn s tm ctx =
     (if ontology_embeddings s = [] then (Inl CacheEmpty, s)
      else
        (case get_embedding embed_fn (candidate_text tm ctx) (provider_calls s) of
           (None, calls') \<Rightarrow> (Inl EmbeddingUnavailable, s\<lparr>provider_calls := calls'\<rparr>)
         | (Some c, calls') \<Rightarrow>
             (resolve (ontology_terms s) (ontology_embeddings s) c, s\<lparr>provider_calls := calls'\<rparr>)))"

text \<open>The Python value that is returned: a triple, \<^verbatim>\<open>None, None, None\<close> on every failure.\<close>

fun returned :: "outcome \<Rightarrow> string option \<times> string option \<times> string option" where
  "returned (Inl f) = (None, None, None)"
| "returned (Inr (best_match, code, system)) = (Some best_match, Some code, Some system)"

text \<open>
  The function as Python sees it: the value it returns, or the exception that leaves it. The
  body of the outer \<^verbatim>\<open>try\<close> runs up to a \<^verbatim>\<open>return\<close> or up to an exception (\<^verbatim>\<open>max\<close> of an empty
  dict, a missing key in \<^verbatim>\<open>ontology_terms[best_match]\<close>); the handler
  \<^verbatim>\<open>except Exception\<close> turns every exception into \<^verbatim>\<open>None, None, None\<close>. The components of the
  triple are options, so that a triple with some components missing can be written down.
\<close>

type_synonym triple = "string option \<times> string option \<times> string option"

definition try_body :: "(string \<times> string) dict \<Rightarrow> vec dict \<Rightarrow> vec option \<Rightarrow> exn + triple" where
  "try_body ont cache candidate_embedding =
     (case candidate_embedding of
        None \<Rightarrow> Inr (None, None, None)
      | Some c \<Rightarrow>
          (let similarities = similarities_loop c cache []
           in if similarities = [] then Inr (None, None, None)
              else (case py_max_key similarities of
                      Inl e \<Rightarrow> Inl e
                    | Inr best_match \<Rightarrow>
                        (case dict_getitem ont best_match of
                           Inl e \<Rightarrow> Inl e
                         | Inr (code, system) \<Rightarrow> Inr (Some best_match, Some code, Some system)))))"

definition disambiguate_entity_raw :: "provider \<Rightarrow> pstate \<Rightarrow> string \<Rightarrow> string \<Rightarrow> (exn + triple) \<times> pstate" where
  "disambiguate_entity_raw embed_fn s tm ctx =
     (if ontology_embeddings s = [] then (Inr (None, None, None), s)
      else
        (case get_embedding embed_fn (candidate_text tm ctx) (provider_calls s) of
           (candidate_embedding, calls') \<Rightarrow>
             (case try_body (ontology_terms s) (ontology_embeddings s) candidate_embedding of
                Inl e \<Rightarrow> Inr (None, None, None)
              | Inr t \<Rightarrow> Inr t,
              s\<lparr>provider_calls := calls'\<rparr>)))"


text \<open>
  The loop of the script's main part, \<^verbatim>\<open>for term, ctx in examples\<close>, which calls
  \<^verbatim>\<open>disambiguate_entity\<close> for one query after the other; it gives the state after any
  number of calls.
\<close>

fun run_examples :: "provider \<Rightarrow> pstate \<Rightarrow> (string \<times> string) list \<Rightarrow> pstate" where
  "run_examples embed_fn s [] = s"
| "run_examples embed_fn s ((tm, ctx) # examples) =
     run_examples embed_fn (snd (disambiguate_entity embed_fn s tm ctx)) examples"

text \<open>The first two entries of the table, used as a small ontology in the examples below.\<close>

definition two_terms :: "(string \<times> string) dict" where
  "two_terms =
     [(''Hypertension'', (''38341003'', ''SNOMED CT'')),
      (''Diabetes Mellitus'', (''44054006'', ''SNOMED CT''))]"

text \<open>
  Embedding models for the examples: one that fails for every text, one that embeds a single
  ontology term, and two that differ only on a text that is never embedded.
\<close>

definition failing_model :: provider where
  "failing_model t = None"

definition hypertension_only :: provider where
  "hypertension_only t = (if t = ''Hypertension'' then Some [1] else None)"

definition constant_model :: provider where
  "constant_model t = Some [1]"


text \<open>
  An embedding model that returns the zero vector for every text but one ontology term.
\<close>

definition hypertension_axis :: provider where
  "hypertension_axis t = (if t = ''Hypertension'' then Some [1, 0] else Some [0, 0])"



text \<open>
  What the similarity loop is expected to build from a cache with unique keys: the pairs
  whose comparison does not raise, each with its score, in the order of the cache.
\<close>

definition computed :: "vec \<Rightarrow> vec dict \<Rightarrow> real dict" where
  "computed c cache =
     concat (map (\<lambda>(k, v). case cosine_similarity c v of Inl e \<Rightarrow> [] | Inr sim \<Rightarrow> [(k, sim)]) cache)"

section \<open>Dictionaries\<close>

lemma dict_keys_dict_set:
  "set (dict_keys (dict_set k v d)) = insert k (set (dict_keys d))"
  unfolding dict_keys_def by (induction d) force+

lemma distinct_dict_set:
  "distinct (dict_keys d) \<Longrightarrow> distinct (dict_keys (dict_set k v d))"
proof (induction d)
  case Nil
  then show ?case by (simp add: dict_keys_def)
next
  case (Cons p d)
  obtain k' v' where p: "p = (k', v')" by (cases p)
  from Cons have "distinct (dict_keys (dict_set k v d))"
    by (simp add: dict_keys_def)
  moreover have "k' \<notin> set (dict_keys d)"
    using Cons.prems by (simp add: dict_keys_def p)
  ultimately show ?case
    using Cons.prems dict_keys_dict_set [of k v d]
    by (auto simp: p dict_keys_def)
qed

lemma map_of_dict_set:
  "map_of (dict_set k v d) = (map_of d)(k \<mapsto> v)"
  by (induction d) (auto simp: fun_eq_iff)

lemma dict_set_append_new:
  "k \<notin> set (dict_keys d) \<Longrightarrow> dict_set k v d = d @ [(k, v)]"
  by (induction d) (auto simp: dict_keys_def)

section \<open>Warm-up\<close>

lemma warm_loop_calls:
  "snd (warm_loop embed_fn tms (cache, calls)) = calls @ tms"
  by (induction tms arbitrary: cache calls) (auto simp: get_embedding_def split: option.splits)

lemma warm_loop_cache_indep:
  "fst (warm_loop embed_fn tms (cache, calls)) = fst (warm_loop embed_fn tms (cache, calls'))"
  by (induction tms arbitrary: cache calls calls') (auto simp: get_embedding_def split: option.splits)

lemma warm_loop_keys:
  "set (dict_keys (fst (warm_loop embed_fn tms (cache, calls)))) =
     set (dict_keys cache) \<union> {t \<in> set tms. embed_fn t \<noteq> None}"
  by (induction tms arbitrary: cache calls)
     (auto simp: get_embedding_def dict_keys_dict_set split: option.splits)

lemma warm_loop_distinct:
  "distinct (dict_keys cache) \<Longrightarrow> distinct (dict_keys (fst (warm_loop embed_fn tms (cache, calls))))"
  by (induction tms arbitrary: cache calls)
     (auto simp: get_embedding_def distinct_dict_set split: option.splits)

lemma warm_loop_map_of:
  "map_of (fst (warm_loop embed_fn tms (cache, calls))) t =
     (if t \<in> set tms \<and> embed_fn t \<noteq> None then embed_fn t else map_of cache t)"
  by (induction tms arbitrary: cache calls)
     (auto simp: get_embedding_def map_of_dict_set split: option.splits)

lemma dict_set_same:
  "map_of d k = Some v \<Longrightarrow> dict_set k v d = d"
  by (induction d) (auto split: if_splits)

lemma warm_loop_again:
  "\<forall>t\<in>set tms. \<forall>v. embed_fn t = Some v \<longrightarrow> map_of cache t = Some v \<Longrightarrow>
     fst (warm_loop embed_fn tms (cache, calls)) = cache"
  by (induction tms arbitrary: calls)
     (auto simp: get_embedding_def dict_set_same split: option.splits)

lemma warm_up_eq:
  "warm_up embed_fn s =
     s\<lparr>ontology_embeddings :=
         fst (warm_loop embed_fn (dict_keys (ontology_terms s)) ([], provider_calls s)),
       provider_calls := provider_calls s @ dict_keys (ontology_terms s)\<rparr>"
  using warm_loop_calls [of embed_fn "dict_keys (ontology_terms s)" "[]" "provider_calls s"]
  by (auto simp: warm_up_def split: prod.splits)

lemma ontology_embeddings_warm_up:
  "ontology_embeddings (warm_up embed_fn s) =
     fst (warm_loop embed_fn (dict_keys (ontology_terms s)) ([], provider_calls s))"
  by (simp add: warm_up_eq)

lemma provider_calls_warm_up:
  "provider_calls (warm_up embed_fn s) = provider_calls s @ dict_keys (ontology_terms s)"
  by (simp add: warm_up_eq)

lemma ontology_terms_warm_up:
  "ontology_terms (warm_up embed_fn s) = ontology_terms s"
  by (simp add: warm_up_eq)

section \<open>The similarity loop and the maximum\<close>

lemma dict_set_nonempty: "dict_set k v d \<noteq> []"
proof (cases d)
  case Nil
  then show ?thesis by simp
next
  case (Cons p d')
  obtain k' v' where "p = (k', v')" by (cases p)
  with Cons show ?thesis by simp
qed

lemma similarities_loop_nonempty:
  "sims \<noteq> [] \<Longrightarrow> similarities_loop c cache sims \<noteq> []"
proof (induction cache arbitrary: sims)
  case Nil
  then show ?case by simp
next
  case (Cons p cache)
  obtain k v where p: "p = (k, v)" by (cases p)
  show ?case
  proof (cases "cosine_similarity c v")
    case (Inl e)
    then show ?thesis using Cons.IH [OF Cons.prems] by (simp add: p)
  next
    case (Inr sim)
    then show ?thesis using Cons.IH [OF dict_set_nonempty] by (simp add: p)
  qed
qed

lemma similarities_loop_empty_iff:
  "(similarities_loop c cache [] = []) = (\<forall>(k, v)\<in>set cache. \<exists>e. cosine_similarity c v = Inl e)"
proof (induction cache)
  case Nil
  then show ?case by simp
next
  case (Cons p cache)
  obtain k v where p: "p = (k, v)" by (cases p)
  show ?case
  proof (cases "cosine_similarity c v")
    case (Inl e)
    with Cons p show ?thesis by simp
  next
    case (Inr sim)
    have "similarities_loop c (p # cache) [] \<noteq> []"
      using similarities_loop_nonempty [of "[(k, sim)]" c cache] Inr by (simp add: p)
    with Inr p show ?thesis by simp
  qed
qed

lemma computed_Cons:
  "computed c ((k, v) # cache) =
     (case cosine_similarity c v of Inl e \<Rightarrow> computed c cache | Inr sim \<Rightarrow> (k, sim) # computed c cache)"
  by (simp add: computed_def split: sum.splits)

lemma similarities_loop_computed:
  "distinct (dict_keys sims @ dict_keys cache) \<Longrightarrow>
     similarities_loop c cache sims = sims @ computed c cache"
proof (induction cache arbitrary: sims)
  case Nil
  then show ?case by (simp add: computed_def)
next
  case (Cons p cache)
  obtain k v where p: "p = (k, v)" by (cases p)
  show ?case
  proof (cases "cosine_similarity c v")
    case (Inl e)
    have "distinct (dict_keys sims @ dict_keys cache)"
      using Cons.prems by (simp add: p dict_keys_def)
    then show ?thesis
      using Cons.IH [of sims] Inl by (simp add: p computed_Cons)
  next
    case (Inr sim)
    have new: "k \<notin> set (dict_keys sims)"
      using Cons.prems by (auto simp: p dict_keys_def)
    then have set: "dict_set k sim sims = sims @ [(k, sim)]"
      by (rule dict_set_append_new)
    have "distinct (dict_keys (sims @ [(k, sim)]) @ dict_keys cache)"
      using Cons.prems by (auto simp: p dict_keys_def)
    then show ?thesis
      using Cons.IH [of "sims @ [(k, sim)]"] Inr set by (simp add: p computed_Cons)
  qed
qed

lemma similarities_are_computed:
  "distinct (dict_keys cache) \<Longrightarrow> similarities_loop c cache [] = computed c cache"
  using similarities_loop_computed [of "[]" cache c] by (simp add: dict_keys_def)

lemma computed_Nil: "computed c [] = []"
  by (simp add: computed_def)

lemma computed_member:
  "((k, sim) \<in> set (computed c cache)) = (\<exists>v. (k, v) \<in> set cache \<and> cosine_similarity c v = Inr sim)"
proof (induction cache)
  case Nil
  then show ?case by (simp add: computed_Nil)
next
  case (Cons p cache)
  obtain k' v' where p: "p = (k', v')" by (cases p)
  show ?case
  proof (cases "cosine_similarity c v'")
    case (Inl e)
    then show ?thesis using Cons by (auto simp: p computed_Cons)
  next
    case (Inr s)
    then show ?thesis using Cons by (auto simp: p computed_Cons)
  qed
qed

lemma max_from_first_maximum:
  "max_from (bk, bv) rest = r \<Longrightarrow>
     \<exists>pre post rv. (bk, bv) # rest = pre @ (r, rv) # post
      \<and> (\<forall>(k, v)\<in>set pre. v < rv) \<and> (\<forall>(k, v)\<in>set post. v \<le> rv)"
proof (induction rest arbitrary: bk bv)
  case Nil
  then have "[(bk, bv)] = [] @ (r, bv) # []
      \<and> (\<forall>(k, v)\<in>set []. v < bv) \<and> (\<forall>(k, v)\<in>set []. v \<le> bv)"
    by simp
  then show ?case by (intro exI)
next
  case (Cons p rest)
  obtain k v where p: "p = (k, v)" by (cases p)
  show ?case
  proof (cases "v > bv")
    case True
    then have "max_from (k, v) rest = r" using Cons.prems by (simp add: p)
    from Cons.IH [OF this] obtain pre post rv where
      d: "(k, v) # rest = pre @ (r, rv) # post"
      and lt: "\<forall>(k, v)\<in>set pre. v < rv" and le: "\<forall>(k, v)\<in>set post. v \<le> rv"
      by blast
    have "v \<le> rv"
    proof (cases pre)
      case Nil
      with d show ?thesis by simp
    next
      case (Cons q pre')
      with d have "q = (k, v)" by simp
      with lt Cons show ?thesis by simp
    qed
    with True have "bv < rv" by simp
    then have lt': "\<forall>(k, v)\<in>set ((bk, bv) # pre). v < rv" using lt by simp
    have d': "(bk, bv) # p # rest = ((bk, bv) # pre) @ (r, rv) # post"
      using d by (simp add: p)
    from d' lt' le
    have "(bk, bv) # p # rest = ((bk, bv) # pre) @ (r, rv) # post
      \<and> (\<forall>(k, v)\<in>set ((bk, bv) # pre). v < rv) \<and> (\<forall>(k, v)\<in>set post. v \<le> rv)"
      by (intro conjI)
    then show ?thesis by (intro exI)
  next
    case False
    then have "max_from (bk, bv) rest = r" using Cons.prems by (simp add: p)
    from Cons.IH [OF this] obtain pre post rv where
      d: "(bk, bv) # rest = pre @ (r, rv) # post"
      and lt: "\<forall>(k, v)\<in>set pre. v < rv" and le: "\<forall>(k, v)\<in>set post. v \<le> rv"
      by blast
    show ?thesis
    proof (cases pre)
      case Nil
      with d have e: "bk = r" "bv = rv" "rest = post" by simp_all
      have d': "(bk, bv) # p # rest = [] @ (r, rv) # (p # post)"
        using e by simp
      have lt': "\<forall>(k, v)\<in>set []. v < rv" by simp
      have le': "\<forall>(k, v)\<in>set (p # post). v \<le> rv"
        using le False e by (simp add: p)
      from d' lt' le'
      have "(bk, bv) # p # rest = [] @ (r, rv) # (p # post)
        \<and> (\<forall>(k, v)\<in>set []. v < rv) \<and> (\<forall>(k, v)\<in>set (p # post). v \<le> rv)"
        by (intro conjI)
      then show ?thesis by (intro exI)
    next
      case (Cons q pre')
      with d have q: "q = (bk, bv)" and r: "rest = pre' @ (r, rv) # post"
        by simp_all
      have "bv < rv" using lt Cons q by simp
      then have lt': "\<forall>(k, v)\<in>set ((bk, bv) # p # pre'). v < rv"
        using lt Cons False by (simp add: p)
      have d': "(bk, bv) # p # rest = ((bk, bv) # p # pre') @ (r, rv) # post"
        using r by simp
      from d' lt' le
      have "(bk, bv) # p # rest = ((bk, bv) # p # pre') @ (r, rv) # post
        \<and> (\<forall>(k, v)\<in>set ((bk, bv) # p # pre'). v < rv) \<and> (\<forall>(k, v)\<in>set post. v \<le> rv)"
        by (intro conjI)
      then show ?thesis by (intro exI)
    qed
  qed
qed

lemma py_max_key_first_maximum:
  assumes "py_max_key sims = Inr best"
  shows "\<exists>pre post sc. sims = pre @ (best, sc) # post
      \<and> (\<forall>(k, v)\<in>set pre. v < sc) \<and> (\<forall>(k, v)\<in>set post. v \<le> sc)"
proof (cases sims)
  case Nil
  with assms show ?thesis by (simp add: py_max_key_def)
next
  case (Cons kv rest)
  obtain bk bv where kv: "kv = (bk, bv)" by (cases kv)
  from assms Cons kv have "max_from (bk, bv) rest = best" by (simp add: py_max_key_def)
  from max_from_first_maximum [OF this] Cons kv show ?thesis by simp
qed

lemma py_max_key_nonempty:
  "sims \<noteq> [] \<Longrightarrow> \<exists>best. py_max_key sims = Inr best"
  by (cases sims) (simp_all add: py_max_key_def)

lemma py_max_key_maximum:
  assumes "py_max_key sims = Inr best"
  shows "\<exists>sc. (best, sc) \<in> set sims \<and> (\<forall>(k, v)\<in>set sims. v \<le> sc)"
proof -
  from py_max_key_first_maximum [OF assms] obtain pre post sc where
    d: "sims = pre @ (best, sc) # post"
    and lt: "\<forall>(k, v)\<in>set pre. v < sc" and le: "\<forall>(k, v)\<in>set post. v \<le> sc"
    by blast
  have "(best, sc) \<in> set sims" using d by simp
  moreover have "\<forall>(k, v)\<in>set sims. v \<le> sc"
  proof
    fix x assume "x \<in> set sims"
    then consider "x \<in> set pre" | "x = (best, sc)" | "x \<in> set post" using d by auto
    then show "case x of (k, v) \<Rightarrow> v \<le> sc"
    proof cases
      case 1
      with lt have "case x of (k, v) \<Rightarrow> v < sc" by blast
      then show ?thesis by (cases x) simp
    next
      case 2
      then show ?thesis by simp
    next
      case 3
      with le show ?thesis by blast
    qed
  qed
  ultimately show ?thesis by blast
qed

section \<open>Failure paths of a query\<close>

text \<open>
  Claim C3. Whatever the term and the context, a query against a state with no ontology
  embeddings takes the first return of \<^verbatim>\<open>disambiguate_entity\<close>: the outcome is the
  empty-cache failure, the state is untouched (the embedding model is not called) and the
  value returned is \<^verbatim>\<open>None, None, None\<close>, so no matched term is returned.
\<close>

theorem empty_cache_CacheEmpty:
  "ontology_embeddings s = [] \<Longrightarrow>
     disambiguate_entity embed_fn s tm ctx = (Inl CacheEmpty, s)
     \<and> returned (fst (disambiguate_entity embed_fn s tm ctx)) = (None, None, None)"
  by (simp add: disambiguate_entity_def)

theorem empty_cache_CacheEmpty_witness:
  "ontology_embeddings (startup failing_model two_terms) = []
   \<and> disambiguate_entity failing_model (startup failing_model two_terms) ''Diabetes Mellitus'' []
       = (Inl CacheEmpty, startup failing_model two_terms)
   \<and> returned (fst (disambiguate_entity failing_model (startup failing_model two_terms)
         ''Diabetes Mellitus'' [])) = (None, None, None)"
proof -
  have h: "ontology_embeddings (startup failing_model two_terms) = []"
    by (simp add: two_terms_def startup_def warm_up_def dict_keys_def get_embedding_def
        failing_model_def)
  from empty_cache_CacheEmpty [OF h, of failing_model "''Diabetes Mellitus''" "[]"] h
  show ?thesis by (intro conjI) simp_all
qed

text \<open>
  Claim C4, as amended. When the embedding model produces no vector for the candidate text, the
  query fails with the null triple (no matched term, code or code system). The failure is the
  embedding failure only if some ontology embedding exists: the emptiness check comes first in
  \<^verbatim>\<open>disambiguate_entity\<close>, so with no ontology embeddings the outcome is the empty-cache
  failure.
\<close>

theorem embedding_failure_outcome:
  "embed_fn (candidate_text tm ctx) = None \<Longrightarrow>
     fst (disambiguate_entity embed_fn s tm ctx) =
       Inl (if ontology_embeddings s = [] then CacheEmpty else EmbeddingUnavailable)
     \<and> returned (fst (disambiguate_entity embed_fn s tm ctx)) = (None, None, None)"
  by (simp add: disambiguate_entity_def get_embedding_def)


theorem embedding_failure_outcome_witness:
  "hypertension_only (candidate_text ''cold'' ''weather'') = None
   \<and> ontology_embeddings (startup hypertension_only two_terms) = [(''Hypertension'', [1])]
   \<and> fst (disambiguate_entity hypertension_only (startup hypertension_only two_terms)
         ''cold'' ''weather'') = Inl EmbeddingUnavailable
   \<and> returned (fst (disambiguate_entity hypertension_only (startup hypertension_only two_terms)
         ''cold'' ''weather'')) = (None, None, None)"
proof -
  have h: "hypertension_only (candidate_text ''cold'' ''weather'') = None"
    by (simp add: candidate_text_def hypertension_only_def)
  have c: "ontology_embeddings (startup hypertension_only two_terms) = [(''Hypertension'', [1])]"
    by (simp add: two_terms_def startup_def warm_up_def dict_keys_def get_embedding_def
        hypertension_only_def)
  from embedding_failure_outcome
    [of hypertension_only "''cold''" "''weather''" "startup hypertension_only two_terms", OF h] h c
  show ?thesis by (intro conjI) simp_all
qed

text \<open>
  The claim as stated fails when the model fails for every text: warm-up then leaves no
  ontology embedding, and the query ends in the empty-cache failure.
\<close>

theorem embedding_failure_counterexample:
  "failing_model (candidate_text ''Diabetes Mellitus'' []) = None
   \<and> fst (disambiguate_entity failing_model (startup failing_model two_terms)
         ''Diabetes Mellitus'' []) = Inl CacheEmpty
   \<and> fst (disambiguate_entity failing_model (startup failing_model two_terms)
         ''Diabetes Mellitus'' []) \<noteq> Inl EmbeddingUnavailable
   \<and> provider_calls (snd (disambiguate_entity failing_model (startup failing_model two_terms)
         ''Diabetes Mellitus'' [])) = provider_calls (startup failing_model two_terms)"
  by (simp add: two_terms_def startup_def warm_up_def dict_keys_def get_embedding_def
      disambiguate_entity_def failing_model_def)

text \<open>
  Claim C9. The text handed to the embedding model by a query (when there is an ontology
  embedding, otherwise the model is not called) is the term alone when the context is empty,
  and the term, one space and the context otherwise. In particular nothing is appended to the
  term for an empty context, and a non-empty context adds exactly one character between the
  two.
\<close>

theorem candidate_text_embedded:
  "provider_calls (snd (disambiguate_entity embed_fn s tm ctx)) =
     provider_calls s @
       (if ontology_embeddings s = [] then []
        else [if ctx = [] then tm else tm @ '' '' @ ctx])
   \<and> candidate_text tm [] = tm
   \<and> length (candidate_text tm (x # ctx)) = length tm + 1 + length (x # ctx)"
  by (simp add: disambiguate_entity_def get_embedding_def candidate_text_def split: prod.splits option.splits)

section \<open>Repeating the warm-up\<close>

text \<open>
  Claim C7, as amended. Warm-up gives the same result when it is repeated: running the
  module-level code again yields the same ontology embeddings (same entries, same order), and
  so does running its loop over the embeddings already there. Each run hands every ontology
  term to the embedding model once, in the order of the ontology, whether or not the term has
  an embedding already.
\<close>

theorem warm_up_twice:
  "ontology_embeddings (warm_up embed_fn (warm_up embed_fn s)) = ontology_embeddings (warm_up embed_fn s)
   \<and> fst (warm_loop embed_fn (dict_keys (ontology_terms s))
             (ontology_embeddings (warm_up embed_fn s), provider_calls (warm_up embed_fn s)))
       = ontology_embeddings (warm_up embed_fn s)
   \<and> provider_calls (warm_up embed_fn (warm_up embed_fn s))
       = provider_calls (warm_up embed_fn s) @ dict_keys (ontology_terms s)"
proof (intro conjI)
  let ?keys = "dict_keys (ontology_terms s)"
  show "ontology_embeddings (warm_up embed_fn (warm_up embed_fn s)) = ontology_embeddings (warm_up embed_fn s)"
    unfolding ontology_embeddings_warm_up ontology_terms_warm_up
    by (rule warm_loop_cache_indep)
  have "\<forall>t\<in>set ?keys. \<forall>v. embed_fn t = Some v \<longrightarrow>
          map_of (ontology_embeddings (warm_up embed_fn s)) t = Some v"
    by (simp add: ontology_embeddings_warm_up warm_loop_map_of)
  then show "fst (warm_loop embed_fn ?keys
             (ontology_embeddings (warm_up embed_fn s), provider_calls (warm_up embed_fn s)))
       = ontology_embeddings (warm_up embed_fn s)"
    by (rule warm_loop_again)
  show "provider_calls (warm_up embed_fn (warm_up embed_fn s))
       = provider_calls (warm_up embed_fn s) @ dict_keys (ontology_terms s)"
    by (simp add: provider_calls_warm_up ontology_terms_warm_up)
qed

text \<open>
  The claim as stated fails: a term that has its embedding is embedded again by a second run.
\<close>

theorem warm_up_reembeds_counterexample:
  "map_of (ontology_embeddings (startup constant_model two_terms)) ''Hypertension'' = Some [1]
   \<and> provider_calls (startup constant_model two_terms) = [''Hypertension'', ''Diabetes Mellitus'']
   \<and> provider_calls (warm_up constant_model (startup constant_model two_terms))
       = [''Hypertension'', ''Diabetes Mellitus'', ''Hypertension'', ''Diabetes Mellitus'']"
  by (simp add: two_terms_def startup_def warm_up_def dict_keys_def get_embedding_def
      constant_model_def)

section \<open>The best match\<close>

lemma dict_getitem_member:
  "k \<in> set (dict_keys d) \<Longrightarrow> \<exists>v. dict_getitem d k = Inr v"
proof -
  assume "k \<in> set (dict_keys d)"
  then have "map_of d k \<noteq> None"
    by (simp add: dict_keys_def map_of_eq_None_iff)
  then show ?thesis by (auto simp: dict_getitem_def)
qed

lemma computed_keys:
  "(k, sim) \<in> set (computed c cache) \<Longrightarrow> k \<in> set (dict_keys cache)"
proof -
  assume "(k, sim) \<in> set (computed c cache)"
  then obtain v where "(k, v) \<in> set cache" by (auto simp: computed_member)
  then show ?thesis unfolding dict_keys_def by force
qed

lemma best_match_is_maximum:
  assumes dist: "distinct (dict_keys cache)"
    and best: "py_max_key (similarities_loop c cache []) = Inr best"
  shows "\<exists>v sc. (best, v) \<in> set cache \<and> cosine_similarity c v = Inr sc
      \<and> (\<forall>(k, w)\<in>set cache. \<forall>sc'. cosine_similarity c w = Inr sc' \<longrightarrow> sc' \<le> sc)"
proof -
  have sims: "similarities_loop c cache [] = computed c cache"
    using dist by (rule similarities_are_computed)
  from py_max_key_maximum [OF best] obtain sc where
    mem: "(best, sc) \<in> set (computed c cache)"
    and mx: "\<forall>(k, v)\<in>set (computed c cache). v \<le> sc"
    by (auto simp: sims)
  from mem obtain v where v: "(best, v) \<in> set cache" "cosine_similarity c v = Inr sc"
    by (auto simp: computed_member)
  have "\<forall>(k, w)\<in>set cache. \<forall>sc'. cosine_similarity c w = Inr sc' \<longrightarrow> sc' \<le> sc"
  proof (clarify)
    fix k w sc'
    assume "(k, w) \<in> set cache" "cosine_similarity c w = Inr sc'"
    then have "(k, sc') \<in> set (computed c cache)" by (auto simp: computed_member)
    with mx show "sc' \<le> sc" by blast
  qed
  with v show ?thesis by blast
qed

text \<open>
  Claim C1. For a non-empty cache (a dict, so with unique keys) and any candidate vector, the
  term picked by \<^verbatim>\<open>max(similarities, key=similarities.get)\<close> is a cached term whose cosine
  similarity with the candidate is computed and is the greatest of all the similarities computed
  over the cache: the maximum is attained by the returned term. No term is picked only when the
  comparison raises for every cached pair.
\<close>

theorem ranker_selects_maximum:
  assumes "distinct (dict_keys cache)" and "cache \<noteq> []"
  shows "case py_max_key (similarities_loop c cache []) of
           Inr best \<Rightarrow>
             \<exists>v sc. (best, v) \<in> set cache \<and> cosine_similarity c v = Inr sc
               \<and> (\<forall>(k, w)\<in>set cache. \<forall>sc'. cosine_similarity c w = Inr sc' \<longrightarrow> sc' \<le> sc)
         | Inl e \<Rightarrow> \<forall>(k, w)\<in>set cache. \<exists>e'. cosine_similarity c w = Inl e'"
proof (cases "py_max_key (similarities_loop c cache [])")
  case (Inr best)
  from best_match_is_maximum [OF assms(1) Inr] Inr show ?thesis by simp
next
  case (Inl e)
  have "similarities_loop c cache [] = []"
  proof (rule ccontr)
    assume "similarities_loop c cache [] \<noteq> []"
    from py_max_key_nonempty [OF this] Inl show False by simp
  qed
  then have "\<forall>(k, w)\<in>set cache. \<exists>e'. cosine_similarity c w = Inl e'"
    by (simp add: similarities_loop_empty_iff)
  with Inl show ?thesis by simp
qed

theorem ranker_selects_maximum_witness:
  "distinct (dict_keys [(''Hypertension'', [1, 0 :: real]), (''Diabetes Mellitus'', [0, 1])])
   \<and> [(''Hypertension'', [1, 0 :: real]), (''Diabetes Mellitus'', [0, 1])] \<noteq> []
   \<and> py_max_key (similarities_loop [0, 1]
         [(''Hypertension'', [1, 0]), (''Diabetes Mellitus'', [0, 1])] []) = Inr ''Diabetes Mellitus''
   \<and> (\<exists>v sc. (''Diabetes Mellitus'', v) \<in> set [(''Hypertension'', [1, 0]), (''Diabetes Mellitus'', [0, 1])]
         \<and> cosine_similarity [0, 1] v = Inr sc
         \<and> (\<forall>(k, w)\<in>set [(''Hypertension'', [1, 0]), (''Diabetes Mellitus'', [0, 1])].
               \<forall>sc'. cosine_similarity [0, 1] w = Inr sc' \<longrightarrow> sc' \<le> sc))"
proof -
  let ?cache = "[(''Hypertension'', [1, 0 :: real]), (''Diabetes Mellitus'', [0, 1])]"
  have h1: "distinct (dict_keys ?cache)" by (simp add: dict_keys_def)
  have h2: "?cache \<noteq> []" by simp
  have r: "py_max_key (similarities_loop [0, 1] ?cache []) = Inr ''Diabetes Mellitus''"
    by (simp add: cosine_similarity_def dot_def normalize_def row_norm_def py_max_key_def)
  from ranker_selects_maximum [OF h1 h2, of "[0, 1]"] r
  have "\<exists>v sc. (''Diabetes Mellitus'', v) \<in> set ?cache
         \<and> cosine_similarity [0, 1] v = Inr sc
         \<and> (\<forall>(k, w)\<in>set ?cache. \<forall>sc'. cosine_similarity [0, 1] w = Inr sc' \<longrightarrow> sc' \<le> sc)"
    by simp
  with h1 h2 r show ?thesis by (intro conjI)
qed

section \<open>The first of the greatest scores\<close>

lemma computed_append: "computed c (xs @ ys) = computed c xs @ computed c ys"
  by (simp add: computed_def)



section \<open>The dictionaries during a run\<close>

lemma disambiguate_entity_keeps_dicts:
  "ontology_terms (snd (disambiguate_entity embed_fn s tm ctx)) = ontology_terms s
   \<and> ontology_embeddings (snd (disambiguate_entity embed_fn s tm ctx)) = ontology_embeddings s"
  by (simp add: disambiguate_entity_def get_embedding_def split: option.splits)

lemma run_examples_keeps_dicts:
  "ontology_terms (run_examples embed_fn s examples) = ontology_terms s
   \<and> ontology_embeddings (run_examples embed_fn s examples) = ontology_embeddings s"
proof (induction examples arbitrary: s)
  case Nil
  then show ?case by simp
next
  case (Cons q examples)
  obtain tm ctx where q: "q = (tm, ctx)" by (cases q)
  show ?case
    using Cons [of "snd (disambiguate_entity embed_fn s tm ctx)"]
      disambiguate_entity_keeps_dicts [of embed_fn s tm ctx]
    by (simp add: q)
qed

lemma dict_keys_Nil: "dict_keys [] = []"
  by (simp add: dict_keys_def)

lemma startup_dicts:
  "ontology_terms (startup embed_fn ont) = ont
   \<and> set (dict_keys (ontology_embeddings (startup embed_fn ont))) \<subseteq> set (dict_keys ont)
   \<and> distinct (dict_keys (ontology_embeddings (startup embed_fn ont)))"
proof (intro conjI)
  show "ontology_terms (startup embed_fn ont) = ont"
    by (simp add: startup_def ontology_terms_warm_up)
  show "set (dict_keys (ontology_embeddings (startup embed_fn ont))) \<subseteq> set (dict_keys ont)"
    by (auto simp: startup_def ontology_embeddings_warm_up warm_loop_keys dict_keys_Nil)
  have "distinct (dict_keys ([] :: vec dict))" by (simp add: dict_keys_def)
  then show "distinct (dict_keys (ontology_embeddings (startup embed_fn ont)))"
    by (simp add: startup_def ontology_embeddings_warm_up warm_loop_distinct)
qed

lemma best_match_in_cache:
  assumes "distinct (dict_keys cache)"
    and "py_max_key (similarities_loop c cache []) = Inr best"
  shows "best \<in> set (dict_keys cache)"
proof -
  from best_match_is_maximum [OF assms] obtain v where "(best, v) \<in> set cache" by blast
  then show ?thesis unfolding dict_keys_def by force
qed

text \<open>
  Claim C8. After warm-up and after any number of calls of \<^verbatim>\<open>disambiguate_entity\<close> (which
  change neither dictionary), every key of the ontology embeddings is a key of the ontology
  table, and whatever the candidate vector, the term picked by the ranker is found in the
  ontology table: the lookup \<^verbatim>\<open>ontology_terms[best_match]\<close> yields its concept code and code
  system and never raises \<^verbatim>\<open>KeyError\<close>.
\<close>

theorem cache_keys_in_ontology:
  "set (dict_keys (ontology_embeddings (run_examples embed_fn (startup embed_fn ont) examples)))
     \<subseteq> set (dict_keys (ontology_terms (run_examples embed_fn (startup embed_fn ont) examples)))
   \<and> (\<forall>c best.
        py_max_key (similarities_loop c
           (ontology_embeddings (run_examples embed_fn (startup embed_fn ont) examples)) []) = Inr best
        \<longrightarrow> (\<exists>code system.
              dict_getitem (ontology_terms (run_examples embed_fn (startup embed_fn ont) examples)) best
                = Inr (code, system)))"
proof -
  let ?s = "run_examples embed_fn (startup embed_fn ont) examples"
  have t: "ontology_terms ?s = ont"
    using run_examples_keeps_dicts [of embed_fn "startup embed_fn ont" examples]
    by (simp add: startup_dicts)
  have e: "ontology_embeddings ?s = ontology_embeddings (startup embed_fn ont)"
    using run_examples_keeps_dicts [of embed_fn "startup embed_fn ont" examples] by simp
  have sub: "set (dict_keys (ontology_embeddings ?s)) \<subseteq> set (dict_keys (ontology_terms ?s))"
    by (simp only: t e startup_dicts)
  have dist: "distinct (dict_keys (ontology_embeddings ?s))"
    by (simp only: e startup_dicts)
  have "\<exists>code system. dict_getitem (ontology_terms ?s) best = Inr (code, system)"
    if "py_max_key (similarities_loop c (ontology_embeddings ?s) []) = Inr best" for c best
  proof -
    from best_match_in_cache [OF dist that] sub
    have "best \<in> set (dict_keys (ontology_terms ?s))" by blast
    from dict_getitem_member [OF this] obtain v where "dict_getitem (ontology_terms ?s) best = Inr v"
      by blast
    then show ?thesis by (cases v) simp
  qed
  with sub show ?thesis by blast
qed

theorem cache_keys_in_ontology_witness:
  "py_max_key (similarities_loop [1]
      (ontology_embeddings (run_examples constant_model (startup constant_model two_terms)
         [(''cold'', ''weather'')])) []) = Inr ''Hypertension''
   \<and> (\<exists>code system.
        dict_getitem (ontology_terms (run_examples constant_model (startup constant_model two_terms)
          [(''cold'', ''weather'')])) ''Hypertension'' = Inr (code, system))"
proof -
  let ?s = "run_examples constant_model (startup constant_model two_terms) [(''cold'', ''weather'')]"
  have c: "ontology_embeddings ?s = [(''Hypertension'', [1]), (''Diabetes Mellitus'', [1])]"
    by (simp add: two_terms_def startup_def warm_up_def dict_keys_def get_embedding_def
        disambiguate_entity_def constant_model_def)
  have h: "py_max_key (similarities_loop [1] (ontology_embeddings ?s) []) = Inr ''Hypertension''"
    unfolding c
    by (simp add: cosine_similarity_def dot_def normalize_def row_norm_def py_max_key_def)
  from cache_keys_in_ontology [of constant_model two_terms "[(''cold'', ''weather'')]"] h
  have "\<exists>code system. dict_getitem (ontology_terms ?s) ''Hypertension'' = Inr (code, system)"
    by blast
  with h show ?thesis by (intro conjI)
qed

section \<open>Shape of the result\<close>

lemma resolve_outcomes:
  "(\<exists>best code system. resolve ont cache c = Inr (best, code, system))
   \<or> resolve ont cache c = Inl NoMatchFound
   \<or> resolve ont cache c = Inl (InternalError KeyError)"
proof (cases "similarities_loop c cache [] = []")
  case True
  then show ?thesis by (simp add: resolve_def)
next
  case False
  from py_max_key_nonempty [OF False] obtain best where
    b: "py_max_key (similarities_loop c cache []) = Inr best" by blast
  show ?thesis
  proof (cases "map_of ont best")
    case None
    with False b show ?thesis by (simp add: resolve_def dict_getitem_def)
  next
    case (Some v)
    obtain code system where "v = (code, system)" by (cases v)
    with Some False b show ?thesis by (simp add: resolve_def dict_getitem_def)
  qed
qed

lemma disambiguate_entity_outcomes:
  "(\<exists>best code system.
      fst (disambiguate_entity embed_fn s tm ctx) = Inr (best, code, system)
      \<and> returned (fst (disambiguate_entity embed_fn s tm ctx)) = (Some best, Some code, Some system))
   \<or> (fst (disambiguate_entity embed_fn s tm ctx)
         \<in> {Inl CacheEmpty, Inl EmbeddingUnavailable, Inl NoMatchFound, Inl (InternalError KeyError)}
       \<and> returned (fst (disambiguate_entity embed_fn s tm ctx)) = (None, None, None))"
proof (cases "ontology_embeddings s = []")
  case True
  then show ?thesis by (simp add: disambiguate_entity_def)
next
  case False
  show ?thesis
  proof (cases "embed_fn (candidate_text tm ctx)")
    case None
    with False show ?thesis by (simp add: disambiguate_entity_def get_embedding_def)
  next
    case (Some c)
    with False have r: "fst (disambiguate_entity embed_fn s tm ctx)
        = resolve (ontology_terms s) (ontology_embeddings s) c"
      by (simp add: disambiguate_entity_def get_embedding_def)
    from resolve_outcomes [of "ontology_terms s" "ontology_embeddings s" c]
    show ?thesis unfolding r by auto
  qed
qed

lemma try_body_resolve:
  "(case try_body ont cache (Some c) of Inl e \<Rightarrow> (None, None, None) | Inr t \<Rightarrow> t)
     = returned (resolve ont cache c)"
proof (cases "similarities_loop c cache [] = []")
  case True
  then show ?thesis by (simp add: try_body_def resolve_def)
next
  case False
  from py_max_key_nonempty [OF False] obtain best where
    b: "py_max_key (similarities_loop c cache []) = Inr best" by blast
  show ?thesis
  proof (cases "dict_getitem ont best")
    case (Inl e)
    with False b show ?thesis by (simp add: try_body_def resolve_def)
  next
    case (Inr cs)
    obtain code system where "cs = (code, system)" by (cases cs)
    with Inr False b show ?thesis by (simp add: try_body_def resolve_def)
  qed
qed

lemma disambiguate_entity_raw_returned:
  "disambiguate_entity_raw embed_fn s tm ctx =
     (Inr (returned (fst (disambiguate_entity embed_fn s tm ctx))),
      snd (disambiguate_entity embed_fn s tm ctx))"
proof (cases "ontology_embeddings s = []")
  case True
  then show ?thesis by (simp add: disambiguate_entity_raw_def disambiguate_entity_def)
next
  case False
  show ?thesis
  proof (cases "embed_fn (candidate_text tm ctx)")
    case None
    with False show ?thesis
      by (simp add: disambiguate_entity_raw_def disambiguate_entity_def get_embedding_def
          try_body_def)
  next
    case (Some c)
    have "(case try_body (ontology_terms s) (ontology_embeddings s) (Some c) of
             Inl e \<Rightarrow> Inr (None, None, None) | Inr t \<Rightarrow> Inr t)
          = (Inr (returned (resolve (ontology_terms s) (ontology_embeddings s) c)) :: exn + triple)"
      using try_body_resolve [of "ontology_terms s" "ontology_embeddings s" c]
      by (cases "try_body (ontology_terms s) (ontology_embeddings s) (Some c)") simp_all
    with False Some show ?thesis
      by (simp add: disambiguate_entity_raw_def disambiguate_entity_def get_embedding_def)
  qed
qed

text \<open>
  The handler is needed: in a state whose embeddings have a key that the ontology table lacks,
  the body raises \<^verbatim>\<open>KeyError\<close>, and the function returns \<^verbatim>\<open>None, None, None\<close>.
\<close>

lemma handler_catches_KeyError:
  "try_body [] [(''Hypertension'', [1])] (Some [1]) = Inl KeyError
   \<and> fst (disambiguate_entity_raw constant_model
        \<lparr>ontology_terms = [], ontology_embeddings = [(''Hypertension'', [1])], provider_calls = []\<rparr>
        ''cold'' []) = Inr (None, None, None)"
  by (simp add: try_body_def disambiguate_entity_raw_def get_embedding_def constant_model_def
      cosine_similarity_def dot_def normalize_def row_norm_def py_max_key_def dict_getitem_def)

text \<open>
  Claim C10. For every state, term and context \<^verbatim>\<open>disambiguate_entity\<close> returns a value (all its
  loops run over finite dictionaries) and no exception leaves it: whatever is raised in the
  body is caught by a handler. The value is either a triple with the matched term, its concept
  code and its code system all present, or exactly \<^verbatim>\<open>None, None, None\<close>, never a triple with
  only some components; it is \<^verbatim>\<open>None, None, None\<close> on each failure path (empty cache, failed
  embedding, no similarity computed, exception caught by the outer handler).
\<close>

theorem disambiguate_entity_all_or_nothing:
  "\<exists>t. fst (disambiguate_entity_raw embed_fn s tm ctx) = Inr t
       \<and> (t = (None, None, None) \<or> (\<exists>best code system. t = (Some best, Some code, Some system)))
       \<and> t = returned (fst (disambiguate_entity embed_fn s tm ctx))"
proof -
  let ?t = "returned (fst (disambiguate_entity embed_fn s tm ctx))"
  have r: "fst (disambiguate_entity_raw embed_fn s tm ctx) = Inr ?t"
    by (simp add: disambiguate_entity_raw_returned)
  have "?t = (None, None, None) \<or> (\<exists>best code system. ?t = (Some best, Some code, Some system))"
  proof (cases "fst (disambiguate_entity embed_fn s tm ctx)")
    case (Inl f)
    then show ?thesis by simp
  next
    case (Inr m)
    obtain best code system where "m = (best, code, system)" by (cases m)
    with Inr show ?thesis by simp
  qed
  with r have "fst (disambiguate_entity_raw embed_fn s tm ctx) = Inr ?t
       \<and> (?t = (None, None, None) \<or> (\<exists>best code system. ?t = (Some best, Some code, Some system)))
       \<and> ?t = returned (fst (disambiguate_entity embed_fn s tm ctx))"
    by simp
  then show ?thesis by (intro exI)
qed

section \<open>Repeated runs\<close>







section \<open>Properties of the cosine similarity\<close>

lemma dot_Nil: "dot [] b = 0" "dot a [] = 0"
  by (simp_all add: dot_def)

lemma dot_Cons: "dot (x # a) (y # b) = x * y + dot a b"
  by (simp add: dot_def)

lemma sumsq_nonneg: "0 \<le> (\<Sum>x\<leftarrow>a. x * x)" for a :: vec
  by (induction a) simp_all

lemma sumsq_zero_iff: "((\<Sum>x\<leftarrow>a. x * x) = 0) = (\<forall>x\<in>set a. x = 0)" for a :: vec
proof (induction a)
  case Nil
  then show ?case by simp
next
  case (Cons x a)
  have "0 \<le> x * x" by simp
  with sumsq_nonneg [of a] have "(x * x + (\<Sum>x\<leftarrow>a. x * x) = 0) = (x * x = 0 \<and> (\<Sum>x\<leftarrow>a. x * x) = 0)"
    by linarith
  with Cons show ?case by simp
qed

lemma row_norm_zero_iff: "(row_norm a = 0) = (\<forall>x\<in>set a. x = 0)"
  by (simp add: row_norm_def sumsq_zero_iff)

lemma row_norm_nonneg: "0 \<le> row_norm a"
  by (simp add: row_norm_def sumsq_nonneg)



lemma dot_zero_left: "\<forall>x\<in>set a. x = 0 \<Longrightarrow> dot a b = 0"
proof (induction a arbitrary: b)
  case Nil
  then show ?case by (simp add: dot_Nil)
next
  case (Cons x a)
  then show ?case by (cases b) (simp_all add: dot_Nil dot_Cons)
qed

lemma dot_zero_right: "\<forall>y\<in>set b. y = 0 \<Longrightarrow> dot a b = 0"
proof (induction a arbitrary: b)
  case Nil
  then show ?case by (simp add: dot_Nil)
next
  case (Cons x a)
  then show ?case by (cases b) (simp_all add: dot_Nil dot_Cons)
qed



lemma normalize_zero: "row_norm a = 0 \<Longrightarrow> normalize a = a"
  by (simp add: normalize_def)





lemma cosine_similarity_zero_norm:
  assumes "a \<noteq> []" and "length b = length a" and "row_norm a = 0 \<or> row_norm b = 0"
  shows "cosine_similarity a b = Inr 0"
proof -
  have ne: "b \<noteq> []" using assms(1,2) by auto
  have "dot (normalize a) (normalize b) = 0"
  proof (cases "row_norm a = 0")
    case True
    then show ?thesis by (simp add: normalize_zero row_norm_zero_iff dot_zero_left)
  next
    case False
    with assms(3) have "row_norm b = 0" by simp
    then show ?thesis by (simp add: normalize_zero row_norm_zero_iff dot_zero_right)
  qed
  with assms(1,2) ne show ?thesis by (simp add: cosine_similarity_def)
qed

section \<open>Vectors of norm zero\<close>

lemma resolve_NoMatchFound_iff:
  "(resolve ont cache c = Inl NoMatchFound)
     = (\<forall>(k, w)\<in>set cache. \<exists>e. cosine_similarity c w = Inl e)"
proof (cases "similarities_loop c cache [] = []")
  case True
  then show ?thesis
    using similarities_loop_empty_iff [of c cache] by (simp add: resolve_def)
next
  case False
  from py_max_key_nonempty [OF False] obtain best where
    b: "py_max_key (similarities_loop c cache []) = Inr best" by blast
  have "resolve ont cache c \<noteq> Inl NoMatchFound"
    using False b by (simp add: resolve_def split: sum.splits prod.splits)
  then show ?thesis
    using False similarities_loop_empty_iff [of c cache] by simp
qed

text \<open>
  Claim C5, as amended. A cached pair in which the candidate vector or the cached vector has
  norm zero (both of the same, non-zero, length) is not a comparison failure: the cosine
  similarity is computed without a division by zero (the zero norm is replaced by 1) and is 0,
  the pair enters the similarities with the score 0 and takes part in the maximum, so the
  result is not the no-match failure. The no-match failure is returned exactly when the
  comparison raises for every cached pair.
\<close>

theorem zero_norm_pair_scored:
  assumes "(k, v) \<in> set cache" and "distinct (dict_keys cache)"
    and "c \<noteq> []" and "length v = length c" and "row_norm c = 0 \<or> row_norm v = 0"
  shows "cosine_similarity c v = Inr 0
     \<and> (k, 0) \<in> set (similarities_loop c cache [])
     \<and> resolve ont cache c \<noteq> Inl NoMatchFound
     \<and> ((resolve ont cache c = Inl NoMatchFound)
          = (\<forall>(k, w)\<in>set cache. \<exists>e. cosine_similarity c w = Inl e))"
proof -
  have z: "cosine_similarity c v = Inr 0"
    using assms(3,4,5) by (rule cosine_similarity_zero_norm)
  have "(k, 0) \<in> set (computed c cache)"
    using assms(1) z by (auto simp: computed_member)
  then have m: "(k, 0) \<in> set (similarities_loop c cache [])"
    by (simp add: similarities_are_computed [OF assms(2)])
  have "\<not> (\<forall>(k, w)\<in>set cache. \<exists>e. cosine_similarity c w = Inl e)"
  proof
    assume "\<forall>(k, w)\<in>set cache. \<exists>e. cosine_similarity c w = Inl e"
    with assms(1) have "\<exists>e. cosine_similarity c v = Inl e" by fast
    with z show False by simp
  qed
  then have n: "resolve ont cache c \<noteq> Inl NoMatchFound"
    by (simp add: resolve_NoMatchFound_iff)
  from z m n resolve_NoMatchFound_iff [of ont cache c] show ?thesis by (intro conjI)
qed

theorem zero_norm_pair_scored_witness:
  "(''Hypertension'', [1, 0]) \<in> set [(''Hypertension'', [1, 0 :: real])]
   \<and> distinct (dict_keys [(''Hypertension'', [1, 0 :: real])])
   \<and> [0, 0 :: real] \<noteq> [] \<and> length [1, 0 :: real] = length [0, 0 :: real]
   \<and> row_norm [0, 0] = 0
   \<and> cosine_similarity [0, 0] [1, 0] = Inr 0
   \<and> (''Hypertension'', 0) \<in> set (similarities_loop [0, 0] [(''Hypertension'', [1, 0])] [])
   \<and> resolve two_terms [(''Hypertension'', [1, 0])] [0, 0] \<noteq> Inl NoMatchFound"
proof -
  have h1: "(''Hypertension'', [1, 0]) \<in> set [(''Hypertension'', [1, 0 :: real])]" by simp
  have h2: "distinct (dict_keys [(''Hypertension'', [1, 0 :: real])])" by (simp add: dict_keys_def)
  have h3: "[0, 0 :: real] \<noteq> []" by simp
  have h4: "length [1, 0 :: real] = length [0, 0 :: real]" by simp
  have h5: "row_norm [0, 0] = 0" by (simp add: row_norm_def)
  have h5': "row_norm [0, 0] = 0 \<or> row_norm [1, 0] = 0" using h5 by simp
  from zero_norm_pair_scored [OF h1 h2 h3 h4 h5', of two_terms]
  have "cosine_similarity [0, 0] [1, 0] = Inr 0
     \<and> (''Hypertension'', 0) \<in> set (similarities_loop [0, 0] [(''Hypertension'', [1, 0])] [])
     \<and> resolve two_terms [(''Hypertension'', [1, 0])] [0, 0] \<noteq> Inl NoMatchFound"
    by blast
  with h1 h2 h3 h4 h5 show ?thesis by (intro conjI) simp_all
qed

text \<open>
  The claim as stated fails: with a candidate vector of norm zero every pair has a zero-norm
  operand, yet both pairs are scored 0 and the first term is returned as the match.
\<close>

theorem zero_norm_counterexample:
  "hypertension_axis (candidate_text ''cold'' []) = Some [0, 0]
   \<and> row_norm [0, 0] = 0
   \<and> ontology_embeddings (startup hypertension_axis two_terms)
       = [(''Hypertension'', [1, 0]), (''Diabetes Mellitus'', [0, 0])]
   \<and> similarities_loop [0, 0] (ontology_embeddings (startup hypertension_axis two_terms)) []
       = [(''Hypertension'', 0), (''Diabetes Mellitus'', 0)]
   \<and> fst (disambiguate_entity hypertension_axis (startup hypertension_axis two_terms) ''cold'' [])
       = Inr (''Hypertension'', ''38341003'', ''SNOMED CT'')"
proof -
  have a: "hypertension_axis (candidate_text ''cold'' []) = Some [0, 0]"
    by (simp add: hypertension_axis_def candidate_text_def)
  have b: "row_norm [0, 0] = 0" by (simp add: row_norm_def)
  have c: "ontology_embeddings (startup hypertension_axis two_terms)
       = [(''Hypertension'', [1, 0]), (''Diabetes Mellitus'', [0, 0])]"
    by (simp add: two_terms_def startup_def warm_up_def dict_keys_def get_embedding_def
        hypertension_axis_def)
  have d: "similarities_loop [0, 0] [(''Hypertension'', [1, 0]), (''Diabetes Mellitus'', [0, 0])] []
       = [(''Hypertension'', 0), (''Diabetes Mellitus'', 0)]"
    by (simp add: cosine_similarity_def dot_def normalize_def row_norm_def)
  have d': "similarities_loop [0, 0] (ontology_embeddings (startup hypertension_axis two_terms)) []
       = [(''Hypertension'', 0), (''Diabetes Mellitus'', 0)]"
    using d by (simp only: c)
  have e: "fst (disambiguate_entity hypertension_axis (startup hypertension_axis two_terms) ''cold'' [])
       = Inr (''Hypertension'', ''38341003'', ''SNOMED CT'')"
    by (simp add: two_terms_def startup_def warm_up_def dict_keys_def get_embedding_def
        disambiguate_entity_def candidate_text_def resolve_def cosine_similarity_def dot_def
        normalize_def row_norm_def py_max_key_def dict_getitem_def hypertension_axis_def)
  from a b c d' e show ?thesis by (intro conjI)
qed

section \<open>Querying an ontology term\<close>






end
